theory Spec2Isabelle
  imports Complex_Main "HOL-Library.AList"
begin

section \<open>Python values used by the loop\<close>

text \<open>
  Exceptions are values.  \<open>ValueError\<close>, \<open>TypeError\<close> and \<open>ZeroDivisionError\<close> are the
  exceptions the loop itself can raise; \<open>Failure\<close> stands for any other exception a
  collaborator raises, identified by its text.  A collaborator may raise any of them.
\<close>

datatype error = ValueError string | TypeError | ZeroDivisionError | Failure string

text \<open>
  Python numbers: \<open>int\<close> is unbounded, \<open>float\<close> is read as a real number (rounding is
  not modelled).  Addition promotes to \<open>float\<close> as soon as one operand is a \<open>float\<close>.
\<close>

datatype pynum = PyInt int | PyFloat real

fun to_float :: "pynum \<Rightarrow> real" where
  "to_float (PyInt i) = of_int i"
| "to_float (PyFloat x) = x"

fun py_add :: "pynum \<Rightarrow> pynum \<Rightarrow> pynum" where
  "py_add (PyInt a) (PyInt b) = PyInt (a + b)"
| "py_add a b = PyFloat (to_float a + to_float b)"

text \<open>\<^verbatim>\<open>episode_return += timestep.reward\<close>: adding \<^verbatim>\<open>None\<close> to a number raises TypeError.\<close>

fun add_reward :: "pynum \<Rightarrow> pynum option \<Rightarrow> error + pynum" where
  "add_reward episode_return None = Inl TypeError"
| "add_reward episode_return (Some r) = Inr (py_add episode_return r)"

text \<open>
  \<^verbatim>\<open>episode_steps / (time.time() - start_time)\<close>: an \<open>int\<close> divided by a \<open>float\<close>; Python
  raises ZeroDivisionError when the divisor is zero.
\<close>

definition truediv :: "int \<Rightarrow> real \<Rightarrow> error + pynum" where
  "truediv n d = (if d = 0 then Inl ZeroDivisionError else Inr (PyFloat (of_int n / d)))"

text \<open>
  A \<^verbatim>\<open>dict\<close> with string keys, in insertion order.  \<^verbatim>\<open>result.update(counts)\<close> stores the
  items of \<open>counts\<close> one after the other: an existing key keeps its place and takes the new
  value, a new key goes to the end.
\<close>

type_synonym pydict = "(string \<times> pynum) list"

definition dict_update :: "pydict \<Rightarrow> pydict \<Rightarrow> pydict" where
  "dict_update result counts = fold (\<lambda>(k, v). AList.update k v) counts result"

section \<open>Timesteps\<close>

datatype step_type = FIRST | MID | LAST

record 'o timestep =
  step_type :: step_type
  reward :: "pynum option"
  discount :: "pynum option"
  observation :: 'o

text \<open>\<^verbatim>\<open>timestep.last()\<close>\<close>

definition last_ts :: "'o timestep \<Rightarrow> bool" where
  "last_ts ts = (step_type ts = LAST)"

section \<open>Collaborators and the world they live in\<close>

text \<open>
  The loop holds an environment, an actor, a counter and a logger.  Each is an object with
  a state of its own; an operation takes the state and either raises or returns its result
  with the new state.
\<close>

record ('e, 'a, 'c, 'l, 'o, 'act) collaborators =
  env_reset :: "'e \<Rightarrow> error + ('o timestep \<times> 'e)"
  env_step :: "'act \<Rightarrow> 'e \<Rightarrow> error + ('o timestep \<times> 'e)"
  actor_observe_first :: "'o timestep \<Rightarrow> 'a \<Rightarrow> error + 'a"
  actor_select_action :: "'o \<Rightarrow> 'a \<Rightarrow> error + ('act \<times> 'a)"
  actor_observe :: "'act \<Rightarrow> 'o timestep \<Rightarrow> 'a \<Rightarrow> error + 'a"
  actor_update :: "'a \<Rightarrow> error + 'a"
  counter_increment :: "pydict \<Rightarrow> 'c \<Rightarrow> error + (pydict \<times> 'c)"
  logger_write :: "pydict \<Rightarrow> 'l \<Rightarrow> error + 'l"

text \<open>
  The world: the four states and the wall clock.  \<open>clock w k\<close> is what the \<open>k\<close>-th call of
  \<^verbatim>\<open>time.time()\<close> returns and \<open>ticks w\<close> counts the calls made so far; nothing is assumed
  about the readings.
\<close>

record ('e, 'a, 'c, 'l) world =
  env_state :: 'e
  actor_state :: 'a
  counter_state :: 'c
  logger_state :: 'l
  clock :: "nat \<Rightarrow> real"
  ticks :: nat

definition time_time :: "('e, 'a, 'c, 'l) world \<Rightarrow> real \<times> ('e, 'a, 'c, 'l) world" where
  "time_time w = (clock w (ticks w), w\<lparr>ticks := Suc (ticks w)\<rparr>)"

text \<open>
  The trace lists the calls the loop makes on its collaborators, oldest first, each with
  what came back: the exception, or the returned value.
\<close>

datatype ('o, 'act) call =
    Env_reset
  | Env_step 'act
  | Actor_observe_first "'o timestep"
  | Actor_select_action 'o
  | Actor_observe 'act "'o timestep"
  | Actor_update
  | Counter_increment pydict
  | Logger_write pydict

datatype ('o, 'act) ret =
    Ret_timestep "'o timestep"
  | Ret_action 'act
  | Ret_counts pydict
  | Ret_none

type_synonym ('o, 'act) event = "('o, 'act) call \<times> (error + ('o, 'act) ret)"

type_synonym ('o, 'act) trace = "('o, 'act) event list"

text \<open>
  A piece of the loop either raises, leaving the exception and the trace so far, or goes
  on with a value, the world and the trace.
\<close>

type_synonym ('r, 'e, 'a, 'c, 'l, 'o, 'act) outcome =
  "(error \<times> ('o, 'act) trace) + ('r \<times> ('e, 'a, 'c, 'l) world \<times> ('o, 'act) trace)"

section \<open>EnvironmentLoop.run\<close>

text \<open>\<^verbatim>\<open>should_terminate\<close>, the closure of lines 90-92.\<close>

definition should_terminate :: "int option \<Rightarrow> int option \<Rightarrow> int \<Rightarrow> int \<Rightarrow> bool" where
  "should_terminate num_episodes num_steps episode_count step_count =
     ((num_episodes \<noteq> None \<and> episode_count \<ge> the num_episodes) \<or>
      (num_steps \<noteq> None \<and> step_count \<ge> the num_steps))"

text \<open>One pass through the body of the inner \<^verbatim>\<open>while\<close> (lines 107-117).\<close>

definition episode_step ::
  "('e, 'a, 'c, 'l, 'o, 'act) collaborators \<Rightarrow> 'o timestep \<Rightarrow> int \<Rightarrow> pynum \<Rightarrow>
   ('e, 'a, 'c, 'l) world \<Rightarrow> ('o, 'act) trace \<Rightarrow>
   ('o timestep \<times> int \<times> pynum, 'e, 'a, 'c, 'l, 'o, 'act) outcome" where
  "episode_step cs timestep episode_steps episode_return w tr =
     (case actor_select_action cs (observation timestep) (actor_state w) of
        Inl e \<Rightarrow> Inl (e, tr @ [(Actor_select_action (observation timestep), Inl e)])
      | Inr (action, a1) \<Rightarrow>
        (case env_step cs action (env_state w) of
           Inl e \<Rightarrow> Inl (e, tr @ [(Actor_select_action (observation timestep), Inr (Ret_action action)),
                                 (Env_step action, Inl e)])
         | Inr (timestep', e1) \<Rightarrow>
           (case actor_observe cs action timestep' a1 of
              Inl e \<Rightarrow> Inl (e, tr @ [(Actor_select_action (observation timestep), Inr (Ret_action action)),
                                    (Env_step action, Inr (Ret_timestep timestep')),
                                    (Actor_observe action timestep', Inl e)])
            | Inr a2 \<Rightarrow>
              (case actor_update cs a2 of
                 Inl e \<Rightarrow> Inl (e, tr @ [(Actor_select_action (observation timestep), Inr (Ret_action action)),
                                       (Env_step action, Inr (Ret_timestep timestep')),
                                       (Actor_observe action timestep', Inr Ret_none),
                                       (Actor_update, Inl e)])
               | Inr a3 \<Rightarrow>
                 (case add_reward episode_return (reward timestep') of
                    Inl e \<Rightarrow> Inl (e, tr @ [(Actor_select_action (observation timestep), Inr (Ret_action action)),
                                          (Env_step action, Inr (Ret_timestep timestep')),
                                          (Actor_observe action timestep', Inr Ret_none),
                                          (Actor_update, Inr Ret_none)])
                  | Inr episode_return' \<Rightarrow>
                    Inr ((timestep', episode_steps + 1, episode_return'),
                         w\<lparr>env_state := e1, actor_state := a3\<rparr>,
                         tr @ [(Actor_select_action (observation timestep), Inr (Ret_action action)),
                               (Env_step action, Inr (Ret_timestep timestep')),
                               (Actor_observe action timestep', Inr Ret_none),
                               (Actor_update, Inr Ret_none)]))))))"

text \<open>
  The inner \<^verbatim>\<open>while not timestep.last()\<close> (line 106).  Nothing bounds the number of
  passes, so the loop is a partial function: \<open>None\<close> is the loop that never ends.
\<close>

partial_function (option) episode_loop ::
  "('e, 'a, 'c, 'l, 'o, 'act) collaborators \<Rightarrow> 'o timestep \<Rightarrow> int \<Rightarrow> pynum \<Rightarrow>
   ('e, 'a, 'c, 'l) world \<Rightarrow> ('o, 'act) trace \<Rightarrow>
   (int \<times> pynum, 'e, 'a, 'c, 'l, 'o, 'act) outcome option" where
  "episode_loop cs timestep episode_steps episode_return w tr =
     (if last_ts timestep then Some (Inr ((episode_steps, episode_return), w, tr))
      else case episode_step cs timestep episode_steps episode_return w tr of
             Inl f \<Rightarrow> Some (Inl f)
           | Inr ((timestep', episode_steps', episode_return'), w', tr') \<Rightarrow>
               episode_loop cs timestep' episode_steps' episode_return' w' tr')"

text \<open>
  The end of the outer loop's body (lines 119-134): count, measure, build the record,
  merge the counts, advance the run's own counts, log.
\<close>

definition finish_episode ::
  "('e, 'a, 'c, 'l, 'o, 'act) collaborators \<Rightarrow> real \<Rightarrow> int \<Rightarrow> pynum \<Rightarrow> int \<Rightarrow> int \<Rightarrow>
   ('e, 'a, 'c, 'l) world \<Rightarrow> ('o, 'act) trace \<Rightarrow>
   (int \<times> int \<times> int, 'e, 'a, 'c, 'l, 'o, 'act) outcome" where
  "finish_episode cs start_time episode_steps episode_return episode_count step_count w tr =
     (let deltas = [(''episodes'', PyInt 1), (''steps'', PyInt episode_steps)] in
      case counter_increment cs deltas (counter_state w) of
        Inl e \<Rightarrow> Inl (e, tr @ [(Counter_increment deltas, Inl e)])
      | Inr (counts, c1) \<Rightarrow>
        (let tr1 = tr @ [(Counter_increment deltas, Inr (Ret_counts counts))];
             (now, w1) = time_time (w\<lparr>counter_state := c1\<rparr>) in
         case truediv episode_steps (now - start_time) of
           Inl e \<Rightarrow> Inl (e, tr1)
         | Inr steps_per_second \<Rightarrow>
           (let result = [(''episode_length'', PyInt episode_steps),
                          (''episode_return'', episode_return),
                          (''steps_per_second'', steps_per_second)];
                result = dict_update result counts;
                episode_count = episode_count + 1;
                step_count = step_count + episode_steps in
            case logger_write cs result (logger_state w1) of
              Inl e \<Rightarrow> Inl (e, tr1 @ [(Logger_write result, Inl e)])
            | Inr l1 \<Rightarrow>
                Inr ((episode_count, step_count, episode_steps),
                     w1\<lparr>logger_state := l1\<rparr>,
                     tr1 @ [(Logger_write result, Inr Ret_none)]))))"

text \<open>
  The body of the outer loop (lines 96-134).  It returns the new \<^verbatim>\<open>episode_count\<close> and
  \<^verbatim>\<open>step_count\<close> and the episode's \<^verbatim>\<open>episode_steps\<close>.
\<close>

definition run_episode ::
  "('e, 'a, 'c, 'l, 'o, 'act) collaborators \<Rightarrow> int \<Rightarrow> int \<Rightarrow>
   ('e, 'a, 'c, 'l) world \<Rightarrow> ('o, 'act) trace \<Rightarrow>
   (int \<times> int \<times> int, 'e, 'a, 'c, 'l, 'o, 'act) outcome option" where
  "run_episode cs episode_count step_count w tr =
     (let (start_time, w0) = time_time w in
      case env_reset cs (env_state w0) of
        Inl e \<Rightarrow> Some (Inl (e, tr @ [(Env_reset, Inl e)]))
      | Inr (timestep, e1) \<Rightarrow>
        (case actor_observe_first cs timestep (actor_state w0) of
           Inl e \<Rightarrow> Some (Inl (e, tr @ [(Env_reset, Inr (Ret_timestep timestep)),
                                       (Actor_observe_first timestep, Inl e)]))
         | Inr a1 \<Rightarrow>
           (case episode_loop cs timestep 0 (PyInt 0) (w0\<lparr>env_state := e1, actor_state := a1\<rparr>)
                   (tr @ [(Env_reset, Inr (Ret_timestep timestep)),
                          (Actor_observe_first timestep, Inr Ret_none)]) of
              None \<Rightarrow> None
            | Some (Inl f) \<Rightarrow> Some (Inl f)
            | Some (Inr ((episode_steps, episode_return), w2, tr2)) \<Rightarrow>
                Some (finish_episode cs start_time episode_steps episode_return
                        episode_count step_count w2 tr2))))"

text \<open>
  The outer \<^verbatim>\<open>while not should_terminate(episode_count, step_count)\<close> (line 95).  Python's
  \<^verbatim>\<open>run\<close> returns nothing; the model returns the locals \<^verbatim>\<open>episode_count\<close>,
  \<^verbatim>\<open>step_count\<close> and \<^verbatim>\<open>episode_steps\<close> as they are when the loop ends
  (\<^verbatim>\<open>episode_steps\<close> is unbound, \<open>None\<close>, when no episode ran).
\<close>

partial_function (option) run_loop ::
  "('e, 'a, 'c, 'l, 'o, 'act) collaborators \<Rightarrow> int option \<Rightarrow> int option \<Rightarrow>
   int \<Rightarrow> int \<Rightarrow> int option \<Rightarrow> ('e, 'a, 'c, 'l) world \<Rightarrow> ('o, 'act) trace \<Rightarrow>
   (int \<times> int \<times> int option, 'e, 'a, 'c, 'l, 'o, 'act) outcome option" where
  "run_loop cs num_episodes num_steps episode_count step_count last_steps w tr =
     (if should_terminate num_episodes num_steps episode_count step_count
      then Some (Inr ((episode_count, step_count, last_steps), w, tr))
      else case run_episode cs episode_count step_count w tr of
             None \<Rightarrow> None
           | Some (Inl f) \<Rightarrow> Some (Inl f)
           | Some (Inr ((episode_count', step_count', episode_steps), w', tr')) \<Rightarrow>
               run_loop cs num_episodes num_steps episode_count' step_count'
                 (Some episode_steps) w' tr')"

definition run ::
  "('e, 'a, 'c, 'l, 'o, 'act) collaborators \<Rightarrow> int option \<Rightarrow> int option \<Rightarrow>
   ('e, 'a, 'c, 'l) world \<Rightarrow> ('o, 'act) trace \<Rightarrow>
   (int \<times> int \<times> int option, 'e, 'a, 'c, 'l, 'o, 'act) outcome option" where
  \<open>run cs num_episodes num_steps w tr =
     (if \<not> (num_episodes = None \<or> num_steps = None)
      then Some (Inl (ValueError ''Either "num_episodes" or "num_steps" should be None.'', tr))
      else run_loop cs num_episodes num_steps 0 0 None w tr)\<close>

section \<open>Reading a trace\<close>

text \<open>The trace a piece of the loop leaves behind, whether it raised or not.\<close>

fun trace_of :: "('r, 'e, 'a, 'c, 'l, 'o, 'act) outcome \<Rightarrow> ('o, 'act) trace" where
  "trace_of (Inl (e, tr)) = tr"
| "trace_of (Inr (r, w, tr)) = tr"

text \<open>
  The calls of the passes of an inner loop that starts at timestep \<open>ts\<close>, given the action
  and the timestep of each pass: select an action from the current observation, step the
  environment with it, let the actor observe the action and the new timestep, update.
\<close>

fun step_events :: "'o timestep \<Rightarrow> ('act \<times> 'o timestep) list \<Rightarrow> ('o, 'act) trace" where
  "step_events ts [] = []"
| "step_events ts ((a, ts') # rest) =
     [(Actor_select_action (observation ts), Inr (Ret_action a)),
      (Env_step a, Inr (Ret_timestep ts')),
      (Actor_observe a ts', Inr Ret_none),
      (Actor_update, Inr Ret_none)] @ step_events ts' rest"

text \<open>The passes go on while the current timestep is not LAST, and stop at the first LAST.\<close>

fun until_last :: "'o timestep \<Rightarrow> ('act \<times> 'o timestep) list \<Rightarrow> bool" where
  "until_last ts [] = last_ts ts"
| "until_last ts ((a, ts') # rest) = (\<not> last_ts ts \<and> until_last ts' rest)"

text \<open>The records passed to \<^verbatim>\<open>Logger.write\<close>, in order.\<close>

fun logged :: "('o, 'act) trace \<Rightarrow> pydict list" where
  "logged [] = []"
| "logged ((Logger_write r, x) # tr) = r # logged tr"
| "logged (ev # tr) = logged tr"

text \<open>The deltas passed to \<^verbatim>\<open>Counter.increment\<close>, in order.\<close>

fun increments :: "('o, 'act) trace \<Rightarrow> pydict list" where
  "increments [] = []"
| "increments ((Counter_increment d, x) # tr) = d # increments tr"
| "increments (ev # tr) = increments tr"

text \<open>The number of \<^verbatim>\<open>Environment.step\<close> calls and of \<^verbatim>\<open>Environment.reset\<close> calls.\<close>

fun env_steps :: "('o, 'act) trace \<Rightarrow> nat" where
  "env_steps [] = 0"
| "env_steps ((Env_step a, x) # tr) = Suc (env_steps tr)"
| "env_steps (ev # tr) = env_steps tr"

fun resets :: "('o, 'act) trace \<Rightarrow> nat" where
  "resets [] = 0"
| "resets ((Env_reset, x) # tr) = Suc (resets tr)"
| "resets (ev # tr) = resets tr"

text \<open>Every call returned.\<close>

fun no_raise :: "('o, 'act) trace \<Rightarrow> bool" where
  "no_raise [] = True"
| "no_raise ((c, Inl e) # tr) = False"
| "no_raise ((c, Inr r) # tr) = no_raise tr"

text \<open>
  How a run that raised \<open>e\<close> looks from its calls: every call but the last returned, and
  the last one either raised \<open>e\<close> itself or returned, in which case \<open>e\<close> is one of the two
  exceptions the loop's own arithmetic raises.
\<close>

definition failed_at :: "error \<Rightarrow> ('o, 'act) trace \<Rightarrow> bool" where
  "failed_at e evs =
     (evs \<noteq> [] \<and> no_raise (butlast evs) \<and>
      (case snd (last evs) of
         Inl e' \<Rightarrow> e' = e
       | Inr r \<Rightarrow> e = TypeError \<or> e = ZeroDivisionError))"

text \<open>What a piece of the loop raised or returned, without the world and the trace.\<close>

fun result_of :: "('r, 'e, 'a, 'c, 'l, 'o, 'act) outcome \<Rightarrow> error + 'r" where
  "result_of (Inl (e, tr)) = Inl e"
| "result_of (Inr (r, w, tr)) = Inr r"

section \<open>Collaborators for the scenarios\<close>

text \<open>The total a counter state has for a name; a name it does not have counts as zero.\<close>

definition total_of :: "pydict \<Rightarrow> string \<Rightarrow> pynum" where
  "total_of totals k = (case map_of totals k of None \<Rightarrow> PyInt 0 | Some n \<Rightarrow> n)"

text \<open>
  Modelled from the spec: \<^verbatim>\<open>Counter.increment\<close> of \<^verbatim>\<open>acme.utils.counting\<close>, which is not
  among the sources.  The spec has the counter state as a "mapping from metric name (string)
  to a non-negative integer total" and \<^verbatim>\<open>increment\<close> as taking named deltas, adding each to
  the total of its name, and returning the "mapping of all current totals".
\<close>

definition counting_increment :: "pydict \<Rightarrow> pydict \<Rightarrow> error + (pydict \<times> pydict)" where
  "counting_increment deltas totals =
     (let totals' = fold (\<lambda>(k, v) t. AList.update k (py_add (total_of t k) v) t) deltas totals
      in Inr (totals', totals'))"

text \<open>
  Modelled from the spec: \<^verbatim>\<open>Logger.write\<close> of \<^verbatim>\<open>acme.utils.loggers\<close>, which is not among
  the sources: it "accepts a structured record (mapping of field name to numeric value) per
  episode" and returns nothing.  The model keeps the records it was given.
\<close>

definition keeping_write :: "pydict \<Rightarrow> pydict list \<Rightarrow> error + pydict list" where
  "keeping_write record records = Inr (records @ [record])"

text \<open>
  An environment whose episodes have \<open>len\<close> steps, each carrying the reward \<open>rw\<close>.  Its
  state is the number of steps taken in the episode, which is also the observation.
\<close>

definition fixed_reset :: "nat \<Rightarrow> nat \<Rightarrow> error + (nat timestep \<times> nat)" where
  "fixed_reset len e =
     Inr (\<lparr>step_type = (if len = 0 then LAST else FIRST), reward = None, discount = None,
           observation = 0\<rparr>, 0)"

definition fixed_step :: "nat \<Rightarrow> pynum option \<Rightarrow> nat \<Rightarrow> nat \<Rightarrow> error + (nat timestep \<times> nat)" where
  "fixed_step len rw action e =
     Inr (\<lparr>step_type = (if len \<le> Suc e then LAST else MID), reward = rw,
           discount = Some (PyFloat (if len \<le> Suc e then 0 else 1)),
           observation = Suc e\<rparr>, Suc e)"

text \<open>
  An actor that answers with the observation and counts its \<^verbatim>\<open>select_action\<close> calls; call
  number \<open>bad\<close> raises (none does when \<open>bad = 0\<close>).
\<close>

definition counting_select_action :: "nat \<Rightarrow> nat \<Rightarrow> nat \<Rightarrow> error + (nat \<times> nat)" where
  "counting_select_action bad obs calls =
     (if Suc calls = bad then Inl (Failure ''select_action'') else Inr (obs, Suc calls))"

definition scenario ::
  "nat \<Rightarrow> nat \<Rightarrow> pynum option \<Rightarrow> (nat, nat, pydict, pydict list, nat, nat) collaborators" where
  "scenario bad len rw =
     \<lparr>env_reset = fixed_reset len,
      env_step = fixed_step len rw,
      actor_observe_first = (\<lambda>ts a. Inr a),
      actor_select_action = counting_select_action bad,
      actor_observe = (\<lambda>action ts a. Inr a),
      actor_update = (\<lambda>a. Inr a),
      counter_increment = counting_increment,
      logger_write = keeping_write\<rparr>"

text \<open>A world in which nothing has happened yet, with the given clock readings.\<close>

definition fresh_world :: "(nat \<Rightarrow> real) \<Rightarrow> (nat, nat, pydict, pydict list) world" where
  "fresh_world readings =
     \<lparr>env_state = 0, actor_state = 0, counter_state = [], logger_state = [],
      clock = readings, ticks = 0\<rparr>"

section \<open>How a trace is read through concatenation\<close>

lemma resets_append: "resets (xs @ ys) = resets xs + resets ys"
  by (induction xs rule: resets.induct) simp_all

lemma no_raise_append: "no_raise (xs @ ys) = (no_raise xs \<and> no_raise ys)"
  by (induction xs rule: no_raise.induct) simp_all

lemma failed_at_append: "no_raise xs \<Longrightarrow> failed_at e ys \<Longrightarrow> failed_at e (xs @ ys)"
  by (simp add: failed_at_def butlast_append no_raise_append)

lemma logged_step_events: "logged (step_events ts steps) = []"
  by (induction ts steps rule: step_events.induct) simp_all

lemma resets_step_events: "resets (step_events ts steps) = 0"
  by (induction ts steps rule: step_events.induct) simp_all

lemma no_raise_step_events: "no_raise (step_events ts steps)"
  by (induction ts steps rule: step_events.induct) simp_all

lemma env_steps_step_events: "env_steps (step_events ts steps) = length steps"
  by (induction ts steps rule: step_events.induct) simp_all

lemma increments_append: "increments (xs @ ys) = increments xs @ increments ys"
  by (induction xs rule: increments.induct) simp_all

lemma increments_step_events: "increments (step_events ts steps) = []"
  by (induction ts steps rule: step_events.induct) simp_all

lemma logged_append: "logged (xs @ ys) = logged xs @ logged ys"
  by (induction xs rule: logged.induct) simp_all

lemma env_steps_append: "env_steps (xs @ ys) = env_steps xs + env_steps ys"
  by (induction xs rule: env_steps.induct) simp_all

section \<open>What an episode and a run leave in the trace\<close>

lemma episode_step_Inr:
  assumes "episode_step cs ts n r w tr = Inr ((ts', n', r'), w', tr')"
  shows "\<exists>a x a1 e1 a2 a3.
           actor_select_action cs (observation ts) (actor_state w) = Inr (a, a1) \<and>
           env_step cs a (env_state w) = Inr (ts', e1) \<and>
           actor_observe cs a ts' a1 = Inr a2 \<and>
           actor_update cs a2 = Inr a3 \<and>
           reward ts' = Some x \<and> r' = py_add r x \<and> n' = n + 1 \<and>
           w' = w\<lparr>env_state := e1, actor_state := a3\<rparr> \<and>
           tr' = tr @ step_events ts [(a, ts')]"
  using assms
  by (auto simp: episode_step_def split: sum.splits prod.splits elim!: add_reward.elims)

lemma episode_loop_Inr_aux:
  "episode_loop cs ts n r w tr = Some y \<Longrightarrow>
     (\<forall>n' r' w' tr'. y = Inr ((n', r'), w', tr') \<longrightarrow>
        (\<exists>steps rs. tr' = tr @ step_events ts steps \<and> until_last ts steps \<and>
           n' = n + int (length steps) \<and>
           map (reward \<circ> snd) steps = map Some rs \<and> r' = foldl py_add r rs \<and>
           counter_state w' = counter_state w \<and> logger_state w' = logger_state w \<and>
           clock w' = clock w \<and> ticks w' = ticks w))"
proof (induction rule: episode_loop.raw_induct[rotated 1, consumes 1, case_names step])
  case (step loop cs ts n r w tr y)
  show ?case
  proof (intro allI impI)
    fix n' r' w' tr'
    assume y: "y = Inr ((n', r'), w', tr')"
    show "\<exists>steps rs. tr' = tr @ step_events ts steps \<and> until_last ts steps \<and>
           n' = n + int (length steps) \<and>
           map (reward \<circ> snd) steps = map Some rs \<and> r' = foldl py_add r rs \<and>
           counter_state w' = counter_state w \<and> logger_state w' = logger_state w \<and>
           clock w' = clock w \<and> ticks w' = ticks w"
    proof (cases "last_ts ts")
      case True
      with step(2) y have "n' = n" "r' = r" "w' = w" "tr' = tr" by simp_all
      with True show ?thesis
        by (intro exI[of _ "[]"]) simp
    next
      case False
      with step(2) y obtain ts1 n1 r1 w1 tr1 where
        st: "episode_step cs ts n r w tr = Inr ((ts1, n1, r1), w1, tr1)" and
        rec: "loop cs ts1 n1 r1 w1 tr1 = Some y"
        by (auto split: sum.splits)
      from episode_step_Inr[OF st] obtain a x a1 e1 a2 a3 where
        s: "reward ts1 = Some x" "r1 = py_add r x" "n1 = n + 1"
           "w1 = w\<lparr>env_state := e1, actor_state := a3\<rparr>"
           "tr1 = tr @ step_events ts [(a, ts1)]"
        by blast
      from step(1)[OF rec] y obtain steps rs where
        ih: "tr' = tr1 @ step_events ts1 steps" "until_last ts1 steps"
            "n' = n1 + int (length steps)"
            "map (reward \<circ> snd) steps = map Some rs" "r' = foldl py_add r1 rs"
            "counter_state w' = counter_state w1" "logger_state w' = logger_state w1"
            "clock w' = clock w1" "ticks w' = ticks w1"
        by blast
      show ?thesis
        using False s ih
        by (intro exI[of _ "(a, ts1) # steps"] exI[of _ "x # rs"]) simp
    qed
  qed
qed

lemma episode_step_Inl:
  assumes "episode_step cs ts n r w tr = Inl (e, tr')"
  shows "\<exists>evs. tr' = tr @ evs \<and> failed_at e evs \<and> logged evs = [] \<and> resets evs = 0"
  using assms
  by (auto simp: episode_step_def failed_at_def split: sum.splits prod.splits
           elim!: add_reward.elims)

lemma episode_loop_Inl_aux:
  "episode_loop cs ts n r w tr = Some y \<Longrightarrow>
     (\<forall>e tr'. y = Inl (e, tr') \<longrightarrow>
        (\<exists>evs. tr' = tr @ evs \<and> failed_at e evs \<and> logged evs = [] \<and> resets evs = 0))"
proof (induction rule: episode_loop.raw_induct[rotated 1, consumes 1, case_names step])
  case (step loop cs ts n r w tr y)
  show ?case
  proof (intro allI impI)
    fix e tr'
    assume y: "y = Inl (e, tr')"
    show "\<exists>evs. tr' = tr @ evs \<and> failed_at e evs \<and> logged evs = [] \<and> resets evs = 0"
    proof (cases "episode_step cs ts n r w tr")
      case (Inl f)
      with step(2) y have "\<not> last_ts ts" "episode_step cs ts n r w tr = Inl (e, tr')"
        by (auto split: if_splits)
      then show ?thesis by (auto dest: episode_step_Inl)
    next
      case (Inr v)
      then obtain ts1 n1 r1 w1 tr1 where
        st: "episode_step cs ts n r w tr = Inr ((ts1, n1, r1), w1, tr1)"
        by (cases v) auto
      with step(2) y have rec: "loop cs ts1 n1 r1 w1 tr1 = Some y"
        by (auto split: if_splits)
      from episode_step_Inr[OF st] obtain a where
        tr1: "tr1 = tr @ step_events ts [(a, ts1)]"
        by blast
      from step(1)[OF rec] y obtain evs where
        ih: "tr' = tr1 @ evs" "failed_at e evs" "logged evs = []" "resets evs = 0"
        by blast
      have "failed_at e (step_events ts [(a, ts1)] @ evs)"
        using ih(2) by (intro failed_at_append no_raise_step_events)
      then show ?thesis
        using tr1 ih
        by (intro exI[of _ "step_events ts [(a, ts1)] @ evs"])
           (simp add: logged_append resets_append)
    qed
  qed
qed

lemma finish_episode_Inr:
  assumes "finish_episode cs t0 n R ec sc w tr = Inr ((ec', sc', k), w', tr')"
  shows "\<exists>counts c1 l1 result.
           counter_increment cs [(''episodes'', PyInt 1), (''steps'', PyInt n)] (counter_state w)
             = Inr (counts, c1) \<and>
           clock w (ticks w) \<noteq> t0 \<and>
           result = dict_update [(''episode_length'', PyInt n), (''episode_return'', R),
                       (''steps_per_second'', PyFloat (of_int n / (clock w (ticks w) - t0)))] counts \<and>
           logger_write cs result (logger_state w) = Inr l1 \<and>
           ec' = ec + 1 \<and> sc' = sc + n \<and> k = n \<and>
           w' = w\<lparr>counter_state := c1, ticks := Suc (ticks w), logger_state := l1\<rparr> \<and>
           tr' = tr @ [(Counter_increment [(''episodes'', PyInt 1), (''steps'', PyInt n)],
                        Inr (Ret_counts counts)),
                       (Logger_write result, Inr Ret_none)]"
  using assms
  by (auto simp: finish_episode_def time_time_def truediv_def Let_def
           split: sum.splits prod.splits if_splits)

lemma finish_episode_Inl:
  assumes "finish_episode cs t0 n R ec sc w tr = Inl (e, tr')"
  shows "\<exists>evs. tr' = tr @ evs \<and> failed_at e evs \<and> resets evs = 0 \<and>
           (logged evs = [] \<or>
            (\<exists>r. last evs = (Logger_write r, Inl e) \<and> logged (butlast evs) = []))"
  using assms
  by (auto simp: finish_episode_def time_time_def truediv_def Let_def failed_at_def
           split: sum.splits prod.splits if_splits)

lemma run_episode_Inr:
  assumes "run_episode cs ec sc w tr = Some (Inr ((ec', sc', k), w', tr'))"
  shows "\<exists>ts0 e1 a1 steps rs w2 counts c1 l1 result.
           env_reset cs (env_state w) = Inr (ts0, e1) \<and>
           actor_observe_first cs ts0 (actor_state w) = Inr a1 \<and>
           until_last ts0 steps \<and>
           map (reward \<circ> snd) steps = map Some rs \<and>
           k = int (length steps) \<and>
           counter_increment cs [(''episodes'', PyInt 1), (''steps'', PyInt k)] (counter_state w)
             = Inr (counts, c1) \<and>
           clock w (Suc (ticks w)) \<noteq> clock w (ticks w) \<and>
           result = dict_update [(''episode_length'', PyInt k),
                       (''episode_return'', foldl py_add (PyInt 0) rs),
                       (''steps_per_second'',
                        PyFloat (of_int k / (clock w (Suc (ticks w)) - clock w (ticks w))))] counts \<and>
           logger_write cs result (logger_state w) = Inr l1 \<and>
           ec' = ec + 1 \<and> sc' = sc + k \<and>
           w' = w2\<lparr>counter_state := c1, ticks := Suc (Suc (ticks w)), logger_state := l1\<rparr> \<and>
           clock w2 = clock w \<and>
           episode_loop cs ts0 0 (PyInt 0)
             (w\<lparr>ticks := Suc (ticks w), env_state := e1, actor_state := a1\<rparr>)
             (tr @ [(Env_reset, Inr (Ret_timestep ts0)),
                    (Actor_observe_first ts0, Inr Ret_none)])
             = Some (Inr ((k, foldl py_add (PyInt 0) rs), w2,
                          tr @ [(Env_reset, Inr (Ret_timestep ts0)),
                                (Actor_observe_first ts0, Inr Ret_none)] @
                               step_events ts0 steps)) \<and>
           tr' = tr @ [(Env_reset, Inr (Ret_timestep ts0)),
                       (Actor_observe_first ts0, Inr Ret_none)] @
                      step_events ts0 steps @
                      [(Counter_increment [(''episodes'', PyInt 1), (''steps'', PyInt k)],
                        Inr (Ret_counts counts)),
                       (Logger_write result, Inr Ret_none)]"
proof -
  from assms obtain ts0 e1 a1 n R w2 tr2 where
    reset: "env_reset cs (env_state w) = Inr (ts0, e1)" and
    first: "actor_observe_first cs ts0 (actor_state w) = Inr a1" and
    loop: "episode_loop cs ts0 0 (PyInt 0)
             (w\<lparr>ticks := Suc (ticks w), env_state := e1, actor_state := a1\<rparr>)
             (tr @ [(Env_reset, Inr (Ret_timestep ts0)),
                    (Actor_observe_first ts0, Inr Ret_none)])
           = Some (Inr ((n, R), w2, tr2))" and
    fin: "finish_episode cs (clock w (ticks w)) n R ec sc w2 tr2 = Inr ((ec', sc', k), w', tr')"
    by (auto simp: run_episode_def time_time_def split: sum.splits prod.splits option.splits)
  from episode_loop_Inr_aux[OF loop] obtain steps rs where
    l: "tr2 = (tr @ [(Env_reset, Inr (Ret_timestep ts0)),
                     (Actor_observe_first ts0, Inr Ret_none)]) @ step_events ts0 steps"
       "until_last ts0 steps" "n = 0 + int (length steps)"
       "map (reward \<circ> snd) steps = map Some rs" "R = foldl py_add (PyInt 0) rs"
       "counter_state w2 = counter_state w" "logger_state w2 = logger_state w"
       "clock w2 = clock w" "ticks w2 = Suc (ticks w)"
    by (auto simp del: append_assoc)
  from finish_episode_Inr[OF fin] obtain counts c1 l1 result where
    f: "counter_increment cs [(''episodes'', PyInt 1), (''steps'', PyInt n)] (counter_state w2)
             = Inr (counts, c1)"
       "clock w2 (ticks w2) \<noteq> clock w (ticks w)"
       "result = dict_update [(''episode_length'', PyInt n), (''episode_return'', R),
                       (''steps_per_second'',
                        PyFloat (of_int n / (clock w2 (ticks w2) - clock w (ticks w))))] counts"
       "logger_write cs result (logger_state w2) = Inr l1"
       "ec' = ec + 1" "sc' = sc + n" "k = n"
       "w' = w2\<lparr>counter_state := c1, ticks := Suc (ticks w2), logger_state := l1\<rparr>"
       "tr' = tr2 @ [(Counter_increment [(''episodes'', PyInt 1), (''steps'', PyInt n)],
                        Inr (Ret_counts counts)),
                       (Logger_write result, Inr Ret_none)]"
    by blast
  show ?thesis
    using reset first l f loop
    by (intro exI[of _ ts0] exI[of _ e1] exI[of _ a1] exI[of _ steps] exI[of _ rs]
              exI[of _ w2] exI[of _ counts] exI[of _ c1] exI[of _ l1] exI[of _ result]) simp
qed

lemma run_episode_Inl:
  assumes "run_episode cs ec sc w tr = Some (Inl (e, tr'))"
  shows "\<exists>x ep. tr' = tr @ (Env_reset, x) # ep \<and> failed_at e ((Env_reset, x) # ep) \<and>
           resets ep = 0 \<and>
           (logged ep = [] \<or>
            (\<exists>r. ep \<noteq> [] \<and> last ep = (Logger_write r, Inl e) \<and> logged (butlast ep) = []))"
proof (cases "env_reset cs (env_state w)")
  case (Inl e')
  with assms have "e' = e" "tr' = tr @ [(Env_reset, Inl e)]"
    by (auto simp: run_episode_def time_time_def)
  then show ?thesis
    by (intro exI[of _ "Inl e"] exI[of _ "[]"]) (simp add: failed_at_def)
next
  case (Inr v)
  then obtain ts0 e1 where reset: "env_reset cs (env_state w) = Inr (ts0, e1)"
    by (cases v) auto
  show ?thesis
  proof (cases "actor_observe_first cs ts0 (actor_state w)")
    case (Inl e')
    with assms reset have "e' = e"
      "tr' = tr @ (Env_reset, Inr (Ret_timestep ts0)) # [(Actor_observe_first ts0, Inl e)]"
      by (auto simp: run_episode_def time_time_def)
    then show ?thesis
      by (intro exI[of _ "Inr (Ret_timestep ts0)"] exI[of _ "[(Actor_observe_first ts0, Inl e)]"])
         (simp add: failed_at_def)
  next
    case (Inr a1)
    let ?w1 = "w\<lparr>ticks := Suc (ticks w), env_state := e1, actor_state := a1\<rparr>"
    let ?head = "[(Env_reset, Inr (Ret_timestep ts0)), (Actor_observe_first ts0, Inr Ret_none)]"
    from assms reset Inr obtain out where
      loop: "episode_loop cs ts0 0 (PyInt 0) ?w1 (tr @ ?head) = Some out"
      by (auto simp: run_episode_def time_time_def split: option.splits)
    have "\<exists>evs. tr' = (tr @ ?head) @ evs \<and> failed_at e evs \<and> resets evs = 0 \<and>
           (logged evs = [] \<or>
            (\<exists>r. last evs = (Logger_write r, Inl e) \<and> logged (butlast evs) = []))"
    proof (cases out)
      case (Inl f)
      with assms reset Inr loop have "out = Inl (e, tr')"
        by (auto simp: run_episode_def time_time_def)
      with episode_loop_Inl_aux[OF loop] show ?thesis by blast
    next
      case (Inr v)
      then obtain n R w2 tr2 where out: "out = Inr ((n, R), w2, tr2)"
        by (cases v) auto
      with assms reset \<open>actor_observe_first cs ts0 (actor_state w) = Inr a1\<close> loop
      have fin: "finish_episode cs (clock w (ticks w)) n R ec sc w2 tr2 = Inl (e, tr')"
        by (auto simp: run_episode_def time_time_def)
      from episode_loop_Inr_aux[OF loop] out obtain steps where
        tr2: "tr2 = (tr @ ?head) @ step_events ts0 steps"
        by blast
      from finish_episode_Inl[OF fin] obtain evs where
        f: "tr' = tr2 @ evs" "failed_at e evs" "resets evs = 0"
           "logged evs = [] \<or>
            (\<exists>r. last evs = (Logger_write r, Inl e) \<and> logged (butlast evs) = [])"
        by blast
      have ne: "evs \<noteq> []" using f(2) by (simp add: failed_at_def)
      have "failed_at e (step_events ts0 steps @ evs)"
        using f(2) by (intro failed_at_append no_raise_step_events)
      moreover have "logged (step_events ts0 steps @ evs) = [] \<or>
            (\<exists>r. last (step_events ts0 steps @ evs) = (Logger_write r, Inl e) \<and>
                 logged (butlast (step_events ts0 steps @ evs)) = [])"
        using f(4) ne by (auto simp: logged_append logged_step_events butlast_append)
      ultimately show ?thesis
        using tr2 f(1,3)
        by (intro exI[of _ "step_events ts0 steps @ evs"])
           (simp add: resets_append resets_step_events)
    qed
    then obtain evs where
      e: "tr' = (tr @ ?head) @ evs" "failed_at e evs" "resets evs = 0"
         "logged evs = [] \<or>
            (\<exists>r. last evs = (Logger_write r, Inl e) \<and> logged (butlast evs) = [])"
      by blast
    have ne: "evs \<noteq> []" using e(2) by (simp add: failed_at_def)
    have "failed_at e (?head @ evs)"
      using e(2) by (intro failed_at_append) simp
    then have "failed_at e ((Env_reset, Inr (Ret_timestep ts0)) #
                 (Actor_observe_first ts0, Inr Ret_none) # evs)"
      by simp
    moreover have "logged ((Actor_observe_first ts0, Inr Ret_none) # evs) = [] \<or>
            (\<exists>r. last ((Actor_observe_first ts0, Inr Ret_none) # evs) = (Logger_write r, Inl e) \<and>
                 logged (butlast ((Actor_observe_first ts0, Inr Ret_none) # evs)) = [])"
      using e(4) ne by auto
    ultimately show ?thesis
      using e(1,3)
      by (intro exI[of _ "Inr (Ret_timestep ts0)"]
                exI[of _ "(Actor_observe_first ts0, Inr Ret_none) # evs"]) simp
  qed
qed

lemma run_episode_Inr_summary:
  assumes "run_episode cs ec sc w tr = Some (Inr ((ec', sc', k), w', tr'))"
  shows "\<exists>evs result. tr' = tr @ evs \<and> no_raise evs \<and> resets evs = 1 \<and>
           logged evs = [result] \<and> int (env_steps evs) = k \<and>
           ec' = ec + 1 \<and> sc' = sc + k \<and> 0 \<le> k"
proof -
  from run_episode_Inr[OF assms] obtain ts0 steps counts result where
    "k = int (length steps)" "ec' = ec + 1" "sc' = sc + k"
    "tr' = tr @ [(Env_reset, Inr (Ret_timestep ts0)),
                       (Actor_observe_first ts0, Inr Ret_none)] @
                      step_events ts0 steps @
                      [(Counter_increment [(''episodes'', PyInt 1), (''steps'', PyInt k)],
                        Inr (Ret_counts counts)),
                       (Logger_write result, Inr Ret_none)]"
    by blast
  then show ?thesis
    by (intro exI[of _ "[(Env_reset, Inr (Ret_timestep ts0)),
                       (Actor_observe_first ts0, Inr Ret_none)] @
                      step_events ts0 steps @
                      [(Counter_increment [(''episodes'', PyInt 1), (''steps'', PyInt k)],
                        Inr (Ret_counts counts)),
                       (Logger_write result, Inr Ret_none)]"] exI[of _ result])
       (simp add: no_raise_append resets_append logged_append env_steps_append
          no_raise_step_events resets_step_events logged_step_events env_steps_step_events)
qed


lemma run_loop_Inl_aux:
  "run_loop cs ne ns ec sc les w tr = Some y \<Longrightarrow>
     (\<forall>e tr'. y = Inl (e, tr') \<longrightarrow>
        (\<exists>past x ep. tr' = tr @ past @ (Env_reset, x) # ep \<and>
           no_raise past \<and> length (logged past) = resets past \<and>
           failed_at e ((Env_reset, x) # ep) \<and> resets ep = 0 \<and>
           (logged ep = [] \<or>
            (\<exists>r. ep \<noteq> [] \<and> last ep = (Logger_write r, Inl e) \<and> logged (butlast ep) = []))))"
proof (induction rule: run_loop.raw_induct[rotated 1, consumes 1, case_names step])
  case (step loop cs ne ns ec sc les w tr y)
  show ?case
  proof (intro allI impI)
    fix e tr'
    assume y: "y = Inl (e, tr')"
    from step(2) y have nt: "\<not> should_terminate ne ns ec sc"
      by (auto split: if_splits)
    with step(2) obtain out where ep: "run_episode cs ec sc w tr = Some out"
      by (auto split: option.splits)
    show "\<exists>past x ep. tr' = tr @ past @ (Env_reset, x) # ep \<and>
           no_raise past \<and> length (logged past) = resets past \<and>
           failed_at e ((Env_reset, x) # ep) \<and> resets ep = 0 \<and>
           (logged ep = [] \<or>
            (\<exists>r. ep \<noteq> [] \<and> last ep = (Logger_write r, Inl e) \<and> logged (butlast ep) = []))"
    proof (cases out)
      case (Inl f)
      with step(2) nt ep y have "run_episode cs ec sc w tr = Some (Inl (e, tr'))"
        by auto
      from run_episode_Inl[OF this] obtain x ep where
        "tr' = tr @ (Env_reset, x) # ep" "failed_at e ((Env_reset, x) # ep)" "resets ep = 0"
        "logged ep = [] \<or>
            (\<exists>r. ep \<noteq> [] \<and> last ep = (Logger_write r, Inl e) \<and> logged (butlast ep) = [])"
        by blast
      then show ?thesis
        by (intro exI[of _ "[]"] exI[of _ x] exI[of _ ep]) simp
    next
      case (Inr v)
      then obtain ec1 sc1 k w1 tr1 where out: "out = Inr ((ec1, sc1, k), w1, tr1)"
        by (cases v) auto
      with step(2) nt ep have rec: "loop cs ne ns ec1 sc1 (Some k) w1 tr1 = Some y"
        by auto
      from run_episode_Inr_summary[OF ep[unfolded out]] obtain evs1 result where
        e1: "tr1 = tr @ evs1" "no_raise evs1" "resets evs1 = 1" "logged evs1 = [result]"
        by blast
      from step(1)[OF rec] y obtain past x ep where
        ih: "tr' = tr1 @ past @ (Env_reset, x) # ep"
           "no_raise past" "length (logged past) = resets past"
           "failed_at e ((Env_reset, x) # ep)" "resets ep = 0"
           "logged ep = [] \<or>
            (\<exists>r. ep \<noteq> [] \<and> last ep = (Logger_write r, Inl e) \<and> logged (butlast ep) = [])"
        by blast
      show ?thesis
        using e1 ih
        by (intro exI[of _ "evs1 @ past"] exI[of _ x] exI[of _ ep])
           (simp add: no_raise_append resets_append logged_append)
    qed
  qed
qed

section \<open>When the loops end\<close>






section \<open>Running the loop on given collaborators\<close>

lemmas scen_defs = scenario_def fresh_world_def fixed_reset_def fixed_step_def
  counting_select_action_def counting_increment_def total_of_def keeping_write_def

lemmas loop_defs = run_def run_episode_def episode_step_def finish_episode_def
  time_time_def truediv_def should_terminate_def last_ts_def dict_update_def Let_def

lemma one_step_episode:
  assumes reset: "\<And>e. \<exists>ts e'. env_reset cs e = Inr (ts, e') \<and> \<not> last_ts ts"
    and step: "\<And>a e. \<exists>ts e'. env_step cs a e = Inr (ts, e') \<and> last_ts ts \<and> reward ts = Some x"
    and first: "\<And>ts a. \<exists>a'. actor_observe_first cs ts a = Inr a'"
    and select: "\<And>ob a. \<exists>action a'. actor_select_action cs ob a = Inr (action, a')"
    and observe: "\<And>action ts a. \<exists>a'. actor_observe cs action ts a = Inr a'"
    and update: "\<And>a. \<exists>a'. actor_update cs a = Inr a'"
    and count: "counter_increment cs [(''episodes'', PyInt 1), (''steps'', PyInt 1)] (counter_state w)
                  = Inr (counts, c')"
    and logs: "\<And>r l. \<exists>l'. logger_write cs r l = Inr l'"
    and tick: "clock w (Suc (ticks w)) \<noteq> clock w (ticks w)"
  shows "\<exists>w' evs.
           run_episode cs ec sc w tr = Some (Inr ((ec + 1, sc + 1, 1), w', tr @ evs)) \<and>
           counter_state w' = c' \<and> clock w' = clock w \<and> ticks w' = Suc (Suc (ticks w)) \<and>
           increments evs = [[(''episodes'', PyInt 1), (''steps'', PyInt 1)]] \<and>
           logged evs =
             [dict_update [(''episode_length'', PyInt 1),
                           (''episode_return'', py_add (PyInt 0) x),
                           (''steps_per_second'',
                            PyFloat (1 / (clock w (Suc (ticks w)) - clock w (ticks w))))] counts]"
proof -
  from reset obtain ts0 e1 where
    r: "env_reset cs (env_state w) = Inr (ts0, e1)" "\<not> last_ts ts0" by blast
  from first obtain a1 where f: "actor_observe_first cs ts0 (actor_state w) = Inr a1" by blast
  from select obtain action a2 where
    s: "actor_select_action cs (observation ts0) a1 = Inr (action, a2)" by blast
  from step obtain ts1 e2 where
    st: "env_step cs action e1 = Inr (ts1, e2)" "last_ts ts1" "reward ts1 = Some x" by blast
  from observe obtain a3 where ob: "actor_observe cs action ts1 a2 = Inr a3" by blast
  from update obtain a4 where u: "actor_update cs a3 = Inr a4" by blast
  let ?result = "dict_update [(''episode_length'', PyInt 1),
                           (''episode_return'', py_add (PyInt 0) x),
                           (''steps_per_second'',
                            PyFloat (1 / (clock w (Suc (ticks w)) - clock w (ticks w))))] counts"
  from logs obtain l1 where wr: "logger_write cs ?result (logger_state w) = Inr l1" by blast
  let ?w1 = "w\<lparr>ticks := Suc (ticks w), env_state := e1, actor_state := a1\<rparr>"
  let ?tr1 = "tr @ [(Env_reset, Inr (Ret_timestep ts0)), (Actor_observe_first ts0, Inr Ret_none)]"
  have stp: "episode_step cs ts0 0 (PyInt 0) ?w1 ?tr1 =
          Inr ((ts1, 1, py_add (PyInt 0) x), ?w1\<lparr>env_state := e2, actor_state := a4\<rparr>,
               ?tr1 @ step_events ts0 [(action, ts1)])"
    using s st ob u by (simp add: episode_step_def)
  have loop: "episode_loop cs ts0 0 (PyInt 0) ?w1 ?tr1 =
          Some (Inr ((1, py_add (PyInt 0) x), ?w1\<lparr>env_state := e2, actor_state := a4\<rparr>,
               ?tr1 @ step_events ts0 [(action, ts1)]))"
    apply (subst episode_loop.simps)
    apply (simp only: r(2) if_False stp sum.case prod.case)
    apply (subst episode_loop.simps)
    apply (simp only: st(2) if_True)
    done
  show ?thesis
    using r f loop count wr tick
    by (simp add: run_episode_def time_time_def finish_episode_def truediv_def Let_def)
qed

lemma run_loop_stop:
  "should_terminate ne ns ec sc \<Longrightarrow>
   run_loop cs ne ns ec sc les w tr = Some (Inr ((ec, sc, les), w, tr))"
  by (subst run_loop.simps) simp

lemma run_loop_next:
  "\<not> should_terminate ne ns ec sc \<Longrightarrow>
   run_episode cs ec sc w tr = Some (Inr ((ec', sc', k), w', tr')) \<Longrightarrow>
   run_loop cs ne ns ec sc les w tr = run_loop cs ne ns ec' sc' (Some k) w' tr'"
  by (subst run_loop.simps) simp

lemma run_loop_raise:
  "\<not> should_terminate ne ns ec sc \<Longrightarrow>
   run_episode cs ec sc w tr = Some (Inl f) \<Longrightarrow>
   run_loop cs ne ns ec sc les w tr = Some (Inl f)"
  by (subst run_loop.simps) simp


lemma scenario_counts:
  "\<exists>counts c'. counter_increment (scenario bad len rw) d c = Inr (counts, c')"
  by (simp add: scen_defs Let_def)


lemmas eval_simps = scen_defs loop_defs run_loop.simps episode_loop.simps


lemma zero_step_episode:
  assumes reset: "env_reset cs (env_state w) = Inr (ts0, e1)" and last: "last_ts ts0"
    and first: "actor_observe_first cs ts0 (actor_state w) = Inr a1"
    and count: "counter_increment cs [(''episodes'', PyInt 1), (''steps'', PyInt 0)] (counter_state w)
                  = Inr (counts, c1)"
    and tick: "clock w (Suc (ticks w)) \<noteq> clock w (ticks w)"
    and logs: "logger_write cs (dict_update [(''episode_length'', PyInt 0),
                  (''episode_return'', PyInt 0), (''steps_per_second'', PyFloat 0)] counts)
                 (logger_state w) = Inr l1"
  shows "run_episode cs ec sc w tr =
           Some (Inr ((ec + 1, sc, 0),
                  w\<lparr>env_state := e1, actor_state := a1, counter_state := c1, logger_state := l1,
                     ticks := Suc (Suc (ticks w))\<rparr>,
                  tr @ [(Env_reset, Inr (Ret_timestep ts0)),
                        (Actor_observe_first ts0, Inr Ret_none),
                        (Counter_increment [(''episodes'', PyInt 1), (''steps'', PyInt 0)],
                         Inr (Ret_counts counts)),
                        (Logger_write (dict_update [(''episode_length'', PyInt 0),
                           (''episode_return'', PyInt 0), (''steps_per_second'', PyFloat 0)] counts),
                         Inr Ret_none)]))"
proof -
  let ?w1 = "w\<lparr>ticks := Suc (ticks w), env_state := e1, actor_state := a1\<rparr>"
  let ?tr1 = "tr @ [(Env_reset, Inr (Ret_timestep ts0)), (Actor_observe_first ts0, Inr Ret_none)]"
  have loop: "episode_loop cs ts0 0 (PyInt 0) ?w1 ?tr1 = Some (Inr ((0, PyInt 0), ?w1, ?tr1))"
    using last by (subst episode_loop.simps) simp
  show ?thesis
    using reset first loop count logs tick
    by (simp add: run_episode_def time_time_def finish_episode_def truediv_def Let_def)
qed

lemma zero_elapsed_raises:
  assumes count: "counter_increment cs [(''episodes'', PyInt 1), (''steps'', PyInt n)] (counter_state w)
                  = Inr (counts, c1)"
    and tick: "clock w (ticks w) = t0"
  shows "finish_episode cs t0 n R ec sc w tr =
           Inl (ZeroDivisionError,
                tr @ [(Counter_increment [(''episodes'', PyInt 1), (''steps'', PyInt n)],
                       Inr (Ret_counts counts))])"
  using assms by (simp add: finish_episode_def time_time_def truediv_def Let_def)

section \<open>Updating a record, and runs that agree\<close>








lemma zero_step_run_loop_never_returns:
  "run_loop cs ne ns ec sc les w tr = Some y \<Longrightarrow>
     \<not> (cs = scenario 0 0 None \<and> ne = None \<and> ns = Some 1 \<and> sc = 0 \<and> clock w = real)"
proof (induction rule: run_loop.raw_induct[rotated 1, consumes 1, case_names step])
  case (step loop cs ne ns ec sc les w tr y)
  show ?case
  proof
    assume a: "cs = scenario 0 0 None \<and> ne = None \<and> ns = Some 1 \<and> sc = 0 \<and> clock w = real"
    let ?ts = "\<lparr>step_type = LAST, reward = None, discount = None, observation = 0::nat\<rparr>"
    obtain counts c1 where
      c: "counter_increment (scenario 0 0 None) [(''episodes'', PyInt 1), (''steps'', PyInt 0)]
            (counter_state w) = Inr (counts, c1)"
      using scenario_counts by blast
    have ep: "run_episode (scenario 0 0 None) ec 0 w tr =
           Some (Inr ((ec + 1, 0, 0),
                  w\<lparr>env_state := 0, actor_state := actor_state w, counter_state := c1,
                     logger_state := logger_state w @
                       [dict_update [(''episode_length'', PyInt 0),
                          (''episode_return'', PyInt 0), (''steps_per_second'', PyFloat 0)] counts],
                     ticks := Suc (Suc (ticks w))\<rparr>,
                  tr @ [(Env_reset, Inr (Ret_timestep ?ts)),
                        (Actor_observe_first ?ts, Inr Ret_none),
                        (Counter_increment [(''episodes'', PyInt 1), (''steps'', PyInt 0)],
                         Inr (Ret_counts counts)),
                        (Logger_write (dict_update [(''episode_length'', PyInt 0),
                           (''episode_return'', PyInt 0), (''steps_per_second'', PyFloat 0)] counts),
                         Inr Ret_none)]))"
      using a by (intro zero_step_episode c)
                 (simp_all add: scenario_def fixed_reset_def keeping_write_def last_ts_def)
    from step(2) a ep obtain w' tr' where
      "loop cs ne ns (ec + 1) 0 (Some 0) w' tr' = Some y" "clock w' = clock w"
      by (simp add: should_terminate_def)
    from step(1)[OF this(1)] a this(2) show False by simp
  qed
qed

section \<open>Termination and the two budgets\<close>




text \<open>
  The budget \<open>num_steps\<close> needs episodes that have steps: when \<^verbatim>\<open>reset\<close> returns LAST at
  once, every episode adds nothing to \<open>step_count\<close> and the run never returns either.
\<close>

lemma zero_step_episodes_never_reach_num_steps:
  "run (scenario 0 0 None) None (Some 1) (fresh_world real) [] = None"
proof (cases "run (scenario 0 0 None) None (Some 1) (fresh_world real) []")
  case None
  then show ?thesis .
next
  case (Some y)
  then have "run_loop (scenario 0 0 None) None (Some 1) 0 0 None (fresh_world real) [] = Some y"
    by (simp add: run_def)
  from zero_step_run_loop_never_returns[OF this] show ?thesis
    by (simp add: fresh_world_def)
qed

section \<open>Invalid arguments\<close>

text \<open>
  C2.  When both \<open>num_episodes\<close> and \<open>num_steps\<close> are given, \<open>run\<close> raises ValueError and has
  called nothing: the trace is the one it started with, so no call reached the
  environment, the actor, the counter or the logger, and no state changed.
\<close>

theorem run_both_bounds_raises:
  \<open>run cs (Some n) (Some m) w tr =
     Some (Inl (ValueError ''Either "num_episodes" or "num_steps" should be None.'', tr))\<close>
  by (simp add: run_def)

section \<open>The order of operations in an episode\<close>



section \<open>Counting episodes and steps\<close>

text \<open>
  C4 (amended).  Every completed episode calls \<^verbatim>\<open>Counter.increment\<close> exactly once, with
  \<open>episodes = 1\<close> and \<open>steps\<close> equal to the number of \<^verbatim>\<open>Environment.step\<close> calls of the
  episode, and the totals that call returned are merged into the one record the episode
  logs.  In particular, let the environment return LAST with reward \<open>1.0\<close> on the first
  step of every episode, let the actor and the logger never raise, let the counter be a
  fresh one, and let the clock move during each of the first three episodes: then
  \<open>run(num_episodes=3)\<close> returns after three episodes and three steps, and the logger has
  received exactly three records, each with \<open>episode_length = 1\<close> and
  \<open>episode_return = 1.0\<close>, with totals \<open>episodes = 1, 2, 3\<close> and \<open>steps = 1, 2, 3\<close>.
\<close>

theorem counter_increment_per_episode:
  "(\<forall>ec sc w tr ec' sc' k w' tr'.
      run_episode cs ec sc w tr = Some (Inr ((ec', sc', k), w', tr')) \<longrightarrow>
      (\<exists>evs counts R v.
         tr' = tr @ evs \<and> k = int (env_steps evs) \<and>
         increments evs = [[(''episodes'', PyInt 1), (''steps'', PyInt k)]] \<and>
         (Counter_increment [(''episodes'', PyInt 1), (''steps'', PyInt k)],
          Inr (Ret_counts counts)) \<in> set evs \<and>
         logged evs = [dict_update [(''episode_length'', PyInt k), (''episode_return'', R),
                                    (''steps_per_second'', v)] counts])) \<and>
   ((\<forall>e. \<exists>ts e'. env_reset cs e = Inr (ts, e') \<and> \<not> last_ts ts) \<and>
    (\<forall>a e. \<exists>ts e'. env_step cs a e = Inr (ts, e') \<and> last_ts ts \<and>
                     reward ts = Some (PyFloat 1)) \<and>
    (\<forall>ts a. \<exists>a'. actor_observe_first cs ts a = Inr a') \<and>
    (\<forall>ob a. \<exists>action a'. actor_select_action cs ob a = Inr (action, a')) \<and>
    (\<forall>action ts a. \<exists>a'. actor_observe cs action ts a = Inr a') \<and>
    (\<forall>a. \<exists>a'. actor_update cs a = Inr a') \<and>
    counter_increment cs = counting_increment \<and> counter_state w0 = [] \<and>
    (\<forall>r l. \<exists>l'. logger_write cs r l = Inr l') \<and>
    clock w0 (ticks w0 + 1) \<noteq> clock w0 (ticks w0) \<and>
    clock w0 (ticks w0 + 3) \<noteq> clock w0 (ticks w0 + 2) \<and>
    clock w0 (ticks w0 + 5) \<noteq> clock w0 (ticks w0 + 4) \<longrightarrow>
    (\<exists>w' evs.
       run cs (Some 3) None w0 tr0 = Some (Inr ((3, 3, Some 1), w', tr0 @ evs)) \<and>
       increments evs = [[(''episodes'', PyInt 1), (''steps'', PyInt 1)],
                         [(''episodes'', PyInt 1), (''steps'', PyInt 1)],
                         [(''episodes'', PyInt 1), (''steps'', PyInt 1)]] \<and>
       logged evs =
         [[(''episode_length'', PyInt 1), (''episode_return'', PyFloat 1),
           (''steps_per_second'', PyFloat (1 / (clock w0 (ticks w0 + 1) - clock w0 (ticks w0)))),
           (''episodes'', PyInt 1), (''steps'', PyInt 1)],
          [(''episode_length'', PyInt 1), (''episode_return'', PyFloat 1),
           (''steps_per_second'', PyFloat (1 / (clock w0 (ticks w0 + 3) - clock w0 (ticks w0 + 2)))),
           (''episodes'', PyInt 2), (''steps'', PyInt 2)],
          [(''episode_length'', PyInt 1), (''episode_return'', PyFloat 1),
           (''steps_per_second'', PyFloat (1 / (clock w0 (ticks w0 + 5) - clock w0 (ticks w0 + 4)))),
           (''episodes'', PyInt 3), (''steps'', PyInt 3)]]))"
proof (intro conjI allI impI)
  fix ec sc w tr ec' sc' k w' tr'
  assume ep: "run_episode cs ec sc w tr = Some (Inr ((ec', sc', k), w', tr'))"
  from run_episode_Inr[OF ep] obtain ts0 steps rs counts result where
    r: "k = int (length steps)"
       "result = dict_update [(''episode_length'', PyInt k),
                       (''episode_return'', foldl py_add (PyInt 0) rs),
                       (''steps_per_second'',
                        PyFloat (of_int k / (clock w (Suc (ticks w)) - clock w (ticks w))))] counts"
       "tr' = tr @ [(Env_reset, Inr (Ret_timestep ts0)),
                       (Actor_observe_first ts0, Inr Ret_none)] @
                      step_events ts0 steps @
                      [(Counter_increment [(''episodes'', PyInt 1), (''steps'', PyInt k)],
                        Inr (Ret_counts counts)),
                       (Logger_write result, Inr Ret_none)]"
    by blast
  let ?evs = "[(Env_reset, Inr (Ret_timestep ts0)),
                       (Actor_observe_first ts0, Inr Ret_none)] @
                      step_events ts0 steps @
                      [(Counter_increment [(''episodes'', PyInt 1), (''steps'', PyInt k)],
                        Inr (Ret_counts counts)),
                       (Logger_write result, Inr Ret_none)]"
  show "\<exists>evs counts R v.
         tr' = tr @ evs \<and> k = int (env_steps evs) \<and>
         increments evs = [[(''episodes'', PyInt 1), (''steps'', PyInt k)]] \<and>
         (Counter_increment [(''episodes'', PyInt 1), (''steps'', PyInt k)],
          Inr (Ret_counts counts)) \<in> set evs \<and>
         logged evs = [dict_update [(''episode_length'', PyInt k), (''episode_return'', R),
                                    (''steps_per_second'', v)] counts]"
    using r
    by (intro exI[of _ ?evs] exI[of _ counts] exI[of _ "foldl py_add (PyInt 0) rs"]
          exI[of _ "PyFloat (of_int k / (clock w (Suc (ticks w)) - clock w (ticks w)))"])
       (simp add: env_steps_append env_steps_step_events increments_append
          increments_step_events logged_append logged_step_events)
next
  assume h: "(\<forall>e. \<exists>ts e'. env_reset cs e = Inr (ts, e') \<and> \<not> last_ts ts) \<and>
    (\<forall>a e. \<exists>ts e'. env_step cs a e = Inr (ts, e') \<and> last_ts ts \<and>
                     reward ts = Some (PyFloat 1)) \<and>
    (\<forall>ts a. \<exists>a'. actor_observe_first cs ts a = Inr a') \<and>
    (\<forall>ob a. \<exists>action a'. actor_select_action cs ob a = Inr (action, a')) \<and>
    (\<forall>action ts a. \<exists>a'. actor_observe cs action ts a = Inr a') \<and>
    (\<forall>a. \<exists>a'. actor_update cs a = Inr a') \<and>
    counter_increment cs = counting_increment \<and> counter_state w0 = [] \<and>
    (\<forall>r l. \<exists>l'. logger_write cs r l = Inr l') \<and>
    clock w0 (ticks w0 + 1) \<noteq> clock w0 (ticks w0) \<and>
    clock w0 (ticks w0 + 3) \<noteq> clock w0 (ticks w0 + 2) \<and>
    clock w0 (ticks w0 + 5) \<noteq> clock w0 (ticks w0 + 4)"
  note one = one_step_episode[of cs "PyFloat 1", OF h[THEN conjunct1, rule_format]
      h[THEN conjunct2, THEN conjunct1, rule_format]
      h[THEN conjunct2, THEN conjunct2, THEN conjunct1, rule_format]
      h[THEN conjunct2, THEN conjunct2, THEN conjunct2, THEN conjunct1, rule_format]
      h[THEN conjunct2, THEN conjunct2, THEN conjunct2, THEN conjunct2, THEN conjunct1, rule_format]
      h[THEN conjunct2, THEN conjunct2, THEN conjunct2, THEN conjunct2, THEN conjunct2,
        THEN conjunct1, rule_format] _
      h[THEN conjunct2, THEN conjunct2, THEN conjunct2, THEN conjunct2, THEN conjunct2,
        THEN conjunct2, THEN conjunct2, THEN conjunct2, THEN conjunct1, rule_format]]
  from h have cnt: "counter_increment cs = counting_increment" and c0: "counter_state w0 = []"
    and t1: "clock w0 (Suc (ticks w0)) \<noteq> clock w0 (ticks w0)"
    and t2: "clock w0 (Suc (Suc (Suc (ticks w0)))) \<noteq> clock w0 (Suc (Suc (ticks w0)))"
    and t3: "clock w0 (Suc (Suc (Suc (Suc (Suc (ticks w0)))))) \<noteq>
             clock w0 (Suc (Suc (Suc (Suc (ticks w0)))))"
    by (simp_all add: numeral_eq_Suc)
  have i1: "counter_increment cs [(''episodes'', PyInt 1), (''steps'', PyInt 1)] (counter_state w0)
       = Inr ([(''episodes'', PyInt 1), (''steps'', PyInt 1)],
              [(''episodes'', PyInt 1), (''steps'', PyInt 1)])"
    by (simp add: cnt c0 counting_increment_def total_of_def Let_def)
  from one[OF i1 t1, of 0 0 tr0] obtain w1 evs1 where
    e1: "run_episode cs 0 0 w0 tr0 = Some (Inr ((1, 1, 1), w1, tr0 @ evs1))"
        "counter_state w1 = [(''episodes'', PyInt 1), (''steps'', PyInt 1)]"
        "clock w1 = clock w0" "ticks w1 = Suc (Suc (ticks w0))"
        "increments evs1 = [[(''episodes'', PyInt 1), (''steps'', PyInt 1)]]"
        "logged evs1 = [[(''episode_length'', PyInt 1), (''episode_return'', PyFloat 1),
           (''steps_per_second'', PyFloat (1 / (clock w0 (Suc (ticks w0)) - clock w0 (ticks w0)))),
           (''episodes'', PyInt 1), (''steps'', PyInt 1)]]"
    by (auto simp: dict_update_def)
  have i2: "counter_increment cs [(''episodes'', PyInt 1), (''steps'', PyInt 1)] (counter_state w1)
       = Inr ([(''episodes'', PyInt 2), (''steps'', PyInt 2)],
              [(''episodes'', PyInt 2), (''steps'', PyInt 2)])"
    by (simp add: cnt e1(2) counting_increment_def total_of_def Let_def)
  from one[OF i2, of 1 1 "tr0 @ evs1"] t2 e1(3,4) obtain w2 evs2 where
    e2: "run_episode cs 1 1 w1 (tr0 @ evs1) = Some (Inr ((2, 2, 1), w2, (tr0 @ evs1) @ evs2))"
        "counter_state w2 = [(''episodes'', PyInt 2), (''steps'', PyInt 2)]"
        "clock w2 = clock w0" "ticks w2 = Suc (Suc (Suc (Suc (ticks w0))))"
        "increments evs2 = [[(''episodes'', PyInt 1), (''steps'', PyInt 1)]]"
        "logged evs2 = [[(''episode_length'', PyInt 1), (''episode_return'', PyFloat 1),
           (''steps_per_second'',
            PyFloat (1 / (clock w0 (Suc (Suc (Suc (ticks w0)))) - clock w0 (Suc (Suc (ticks w0)))))),
           (''episodes'', PyInt 2), (''steps'', PyInt 2)]]"
    by (auto simp: dict_update_def simp del: append_assoc)
  have i3: "counter_increment cs [(''episodes'', PyInt 1), (''steps'', PyInt 1)] (counter_state w2)
       = Inr ([(''episodes'', PyInt 3), (''steps'', PyInt 3)],
              [(''episodes'', PyInt 3), (''steps'', PyInt 3)])"
    by (simp add: cnt e2(2) counting_increment_def total_of_def Let_def)
  from one[OF i3, of 2 2 "(tr0 @ evs1) @ evs2"] t3 e2(3,4) obtain w3 evs3 where
    e3: "run_episode cs 2 2 w2 ((tr0 @ evs1) @ evs2) =
           Some (Inr ((3, 3, 1), w3, ((tr0 @ evs1) @ evs2) @ evs3))"
        "counter_state w3 = [(''episodes'', PyInt 3), (''steps'', PyInt 3)]"
        "increments evs3 = [[(''episodes'', PyInt 1), (''steps'', PyInt 1)]]"
        "logged evs3 = [[(''episode_length'', PyInt 1), (''episode_return'', PyFloat 1),
           (''steps_per_second'',
            PyFloat (1 / (clock w0 (Suc (Suc (Suc (Suc (Suc (ticks w0)))))) -
                          clock w0 (Suc (Suc (Suc (Suc (ticks w0)))))))),
           (''episodes'', PyInt 3), (''steps'', PyInt 3)]]"
    by (auto simp: dict_update_def simp del: append_assoc)
  have "run cs (Some 3) None w0 tr0 = run_loop cs (Some 3) None 0 0 None w0 tr0"
    by (simp add: run_def)
  also have "\<dots> = run_loop cs (Some 3) None 1 1 (Some 1) w1 (tr0 @ evs1)"
    by (rule run_loop_next[OF _ e1(1)]) (simp add: should_terminate_def)
  also have "\<dots> = run_loop cs (Some 3) None 2 2 (Some 1) w2 ((tr0 @ evs1) @ evs2)"
    by (rule run_loop_next[OF _ e2(1)]) (simp add: should_terminate_def)
  also have "\<dots> = run_loop cs (Some 3) None 3 3 (Some 1) w3 (((tr0 @ evs1) @ evs2) @ evs3)"
    by (rule run_loop_next[OF _ e3(1)]) (simp add: should_terminate_def)
  also have "\<dots> = Some (Inr ((3, 3, Some 1), w3, ((tr0 @ evs1) @ evs2) @ evs3))"
    by (rule run_loop_stop) (simp add: should_terminate_def)
  finally have "run cs (Some 3) None w0 tr0 =
      Some (Inr ((3, 3, Some 1), w3, tr0 @ (evs1 @ evs2 @ evs3)))"
    by simp
  then show "\<exists>w' evs.
       run cs (Some 3) None w0 tr0 = Some (Inr ((3, 3, Some 1), w', tr0 @ evs)) \<and>
       increments evs = [[(''episodes'', PyInt 1), (''steps'', PyInt 1)],
                         [(''episodes'', PyInt 1), (''steps'', PyInt 1)],
                         [(''episodes'', PyInt 1), (''steps'', PyInt 1)]] \<and>
       logged evs =
         [[(''episode_length'', PyInt 1), (''episode_return'', PyFloat 1),
           (''steps_per_second'', PyFloat (1 / (clock w0 (ticks w0 + 1) - clock w0 (ticks w0)))),
           (''episodes'', PyInt 1), (''steps'', PyInt 1)],
          [(''episode_length'', PyInt 1), (''episode_return'', PyFloat 1),
           (''steps_per_second'', PyFloat (1 / (clock w0 (ticks w0 + 3) - clock w0 (ticks w0 + 2)))),
           (''episodes'', PyInt 2), (''steps'', PyInt 2)],
          [(''episode_length'', PyInt 1), (''episode_return'', PyFloat 1),
           (''steps_per_second'', PyFloat (1 / (clock w0 (ticks w0 + 5) - clock w0 (ticks w0 + 4)))),
           (''episodes'', PyInt 3), (''steps'', PyInt 3)]]"
    using e1(5,6) e2(5,6) e3(3,4)
    by (intro exI[of _ w3] exI[of _ "evs1 @ evs2 @ evs3"])
       (simp add: increments_append logged_append numeral_eq_Suc)
qed

theorem counter_increment_per_episode_witness:
  "map_option result_of
     (run (scenario 0 1 (Some (PyFloat 1))) (Some 3) None (fresh_world real) [])
     = Some (Inr (3, 3, Some 1)) \<and>
   map_option (logged \<circ> trace_of)
     (run (scenario 0 1 (Some (PyFloat 1))) (Some 3) None (fresh_world real) [])
     = Some [[(''episode_length'', PyInt 1), (''episode_return'', PyFloat 1),
              (''steps_per_second'', PyFloat 1), (''episodes'', PyInt 1), (''steps'', PyInt 1)],
             [(''episode_length'', PyInt 1), (''episode_return'', PyFloat 1),
              (''steps_per_second'', PyFloat 1), (''episodes'', PyInt 2), (''steps'', PyInt 2)],
             [(''episode_length'', PyInt 1), (''episode_return'', PyFloat 1),
              (''steps_per_second'', PyFloat 1), (''episodes'', PyInt 3), (''steps'', PyInt 3)]] \<and>
   map_option (increments \<circ> trace_of)
     (run_episode (scenario 0 1 (Some (PyFloat 1))) 0 0 (fresh_world real) [])
     = Some [[(''episodes'', PyInt 1), (''steps'', PyInt 1)]]"
proof -
  let ?cs = "scenario 0 1 (Some (PyFloat 1))"
  let ?w = "fresh_world real"
  have h: "(\<forall>e. \<exists>ts e'. env_reset ?cs e = Inr (ts, e') \<and> \<not> last_ts ts) \<and>
    (\<forall>a e. \<exists>ts e'. env_step ?cs a e = Inr (ts, e') \<and> last_ts ts \<and>
                     reward ts = Some (PyFloat 1)) \<and>
    (\<forall>ts a. \<exists>a'. actor_observe_first ?cs ts a = Inr a') \<and>
    (\<forall>ob a. \<exists>action a'. actor_select_action ?cs ob a = Inr (action, a')) \<and>
    (\<forall>action ts a. \<exists>a'. actor_observe ?cs action ts a = Inr a') \<and>
    (\<forall>a. \<exists>a'. actor_update ?cs a = Inr a') \<and>
    counter_increment ?cs = counting_increment \<and> counter_state ?w = [] \<and>
    (\<forall>r l. \<exists>l'. logger_write ?cs r l = Inr l') \<and>
    clock ?w (ticks ?w + 1) \<noteq> clock ?w (ticks ?w) \<and>
    clock ?w (ticks ?w + 3) \<noteq> clock ?w (ticks ?w + 2) \<and>
    clock ?w (ticks ?w + 5) \<noteq> clock ?w (ticks ?w + 4)"
    by (simp add: scen_defs last_ts_def)
  have "\<exists>ec sc k w' tr'. run_episode ?cs 0 0 ?w [] = Some (Inr ((ec, sc, k), w', tr'))"
    by (simp add: eval_simps)
  then obtain ec sc k w' tr' where
    ev: "run_episode ?cs 0 0 ?w [] = Some (Inr ((ec, sc, k), w', tr'))"
    by blast
  note inst = counter_increment_per_episode[of ?cs ?w "[]"]
  from inst[THEN conjunct1, rule_format, OF ev] inst[THEN conjunct2, rule_format, OF h]
  show ?thesis
    by (simp add: eval_simps)
qed

text \<open>
  Without the clock moving the scenario of C4 logs nothing: the first episode is counted,
  the division raises, and the run ends.
\<close>

theorem no_records_when_clock_stands_still:
  "map_option result_of
     (run (scenario 0 1 (Some (PyFloat 1))) (Some 3) None (fresh_world (\<lambda>k. 0)) [])
     = Some (Inl ZeroDivisionError) \<and>
   map_option (logged \<circ> trace_of)
     (run (scenario 0 1 (Some (PyFloat 1))) (Some 3) None (fresh_world (\<lambda>k. 0)) [])
     = Some []"
  by (simp add: eval_simps)

section \<open>Steps per second\<close>




section \<open>A timestep without a reward\<close>




section \<open>Merging the counter's totals into the record\<close>



section \<open>Failures\<close>

text \<open>
  C8 (amended).  When a run with at most one budget raises \<open>e\<close>, its calls are those of
  complete episodes, each with its record, followed by the calls of the episode that
  failed, from its \<^verbatim>\<open>Environment.reset\<close> on.  Every call but the last returned; if the last
  call raised, in particular when it is an environment or actor call, what it raised is
  \<open>e\<close>; nothing was called after it.  The failed episode passed no record to
  \<^verbatim>\<open>Logger.write\<close>, unless that very call is the one that raised.  In particular, if
  \<^verbatim>\<open>Actor.select_action\<close> raises on its second call and the first step of the first episode
  did not return LAST, so that the second call falls in the first episode, then
  \<open>run(num_episodes=2)\<close> raises what \<^verbatim>\<open>select_action\<close> raised and the logger has
  received no record.
\<close>

theorem failure_ends_run_before_logging:
  "(\<forall>e tr'. run cs num_episodes num_steps w tr = Some (Inl (e, tr')) \<and>
            (num_episodes = None \<or> num_steps = None) \<longrightarrow>
      (\<exists>past x ep.
         tr' = tr @ past @ (Env_reset, x) # ep \<and>
         no_raise past \<and> length (logged past) = resets past \<and>
         failed_at e ((Env_reset, x) # ep) \<and> resets ep = 0 \<and>
         (logged ep = [] \<or>
          (\<exists>r. ep \<noteq> [] \<and> last ep = (Logger_write r, Inl e) \<and> logged (butlast ep) = [])))) \<and>
   (env_reset cs (env_state w) = Inr (ts0, e1) \<and> \<not> last_ts ts0 \<and>
    actor_observe_first cs ts0 (actor_state w) = Inr a1 \<and>
    actor_select_action cs (observation ts0) a1 = Inr (action, a2) \<and>
    env_step cs action e1 = Inr (ts1, e2) \<and> \<not> last_ts ts1 \<and>
    actor_observe cs action ts1 a2 = Inr a3 \<and>
    actor_update cs a3 = Inr a4 \<and>
    reward ts1 = Some x \<and>
    actor_select_action cs (observation ts1) a4 = Inl e \<longrightarrow>
    run cs (Some 2) None w tr =
      Some (Inl (e, tr @ [(Env_reset, Inr (Ret_timestep ts0)),
                          (Actor_observe_first ts0, Inr Ret_none)] @
                         step_events ts0 [(action, ts1)] @
                         [(Actor_select_action (observation ts1), Inl e)])) \<and>
    logged (tr @ [(Env_reset, Inr (Ret_timestep ts0)),
                  (Actor_observe_first ts0, Inr Ret_none)] @
                 step_events ts0 [(action, ts1)] @
                 [(Actor_select_action (observation ts1), Inl e)]) = logged tr)"
proof (intro conjI allI impI)
  fix e tr'
  assume a: "run cs num_episodes num_steps w tr = Some (Inl (e, tr')) \<and>
            (num_episodes = None \<or> num_steps = None)"
  then have "run_loop cs num_episodes num_steps 0 0 None w tr = Some (Inl (e, tr'))"
    by (auto simp: run_def)
  from run_loop_Inl_aux[OF this]
  show "\<exists>past x ep.
         tr' = tr @ past @ (Env_reset, x) # ep \<and>
         no_raise past \<and> length (logged past) = resets past \<and>
         failed_at e ((Env_reset, x) # ep) \<and> resets ep = 0 \<and>
         (logged ep = [] \<or>
          (\<exists>r. ep \<noteq> [] \<and> last ep = (Logger_write r, Inl e) \<and> logged (butlast ep) = []))"
    by blast
next
  assume h: "env_reset cs (env_state w) = Inr (ts0, e1) \<and> \<not> last_ts ts0 \<and>
    actor_observe_first cs ts0 (actor_state w) = Inr a1 \<and>
    actor_select_action cs (observation ts0) a1 = Inr (action, a2) \<and>
    env_step cs action e1 = Inr (ts1, e2) \<and> \<not> last_ts ts1 \<and>
    actor_observe cs action ts1 a2 = Inr a3 \<and>
    actor_update cs a3 = Inr a4 \<and>
    reward ts1 = Some x \<and>
    actor_select_action cs (observation ts1) a4 = Inl e"
  let ?w1 = "w\<lparr>ticks := Suc (ticks w), env_state := e1, actor_state := a1\<rparr>"
  let ?tr1 = "tr @ [(Env_reset, Inr (Ret_timestep ts0)), (Actor_observe_first ts0, Inr Ret_none)]"
  let ?w2 = "?w1\<lparr>env_state := e2, actor_state := a4\<rparr>"
  let ?tr2 = "?tr1 @ step_events ts0 [(action, ts1)]"
  have s1: "episode_step cs ts0 0 (PyInt 0) ?w1 ?tr1 = Inr ((ts1, 1, py_add (PyInt 0) x), ?w2, ?tr2)"
    using h by (simp add: episode_step_def)
  have s2: "episode_step cs ts1 1 (py_add (PyInt 0) x) ?w2 ?tr2 =
              Inl (e, ?tr2 @ [(Actor_select_action (observation ts1), Inl e)])"
    using h by (simp add: episode_step_def)
  have l2: "episode_loop cs ts1 1 (py_add (PyInt 0) x) ?w2 ?tr2 =
              Some (Inl (e, ?tr2 @ [(Actor_select_action (observation ts1), Inl e)]))"
    using h s2 by (subst episode_loop.simps) simp
  have l1: "episode_loop cs ts0 0 (PyInt 0) ?w1 ?tr1 =
              Some (Inl (e, ?tr2 @ [(Actor_select_action (observation ts1), Inl e)]))"
    using h s1 l2 by (subst episode_loop.simps) simp
  have ep: "run_episode cs 0 0 w tr =
              Some (Inl (e, ?tr2 @ [(Actor_select_action (observation ts1), Inl e)]))"
    using h l1 by (simp add: run_episode_def time_time_def)
  have "run cs (Some 2) None w tr = run_loop cs (Some 2) None 0 0 None w tr"
    by (simp add: run_def)
  also have "\<dots> = Some (Inl (e, ?tr2 @ [(Actor_select_action (observation ts1), Inl e)]))"
    by (rule run_loop_raise[OF _ ep]) (simp add: should_terminate_def)
  finally show "run cs (Some 2) None w tr =
      Some (Inl (e, tr @ [(Env_reset, Inr (Ret_timestep ts0)),
                          (Actor_observe_first ts0, Inr Ret_none)] @
                         step_events ts0 [(action, ts1)] @
                         [(Actor_select_action (observation ts1), Inl e)]))"
    by simp
  show "logged (tr @ [(Env_reset, Inr (Ret_timestep ts0)),
                  (Actor_observe_first ts0, Inr Ret_none)] @
                 step_events ts0 [(action, ts1)] @
                 [(Actor_select_action (observation ts1), Inl e)]) = logged tr"
    by (simp add: logged_append)
qed

theorem failure_ends_run_before_logging_witness:
  "map_option result_of (run (scenario 2 2 (Some (PyFloat 1))) (Some 2) None (fresh_world real) [])
     = Some (Inl (Failure ''select_action'')) \<and>
   map_option (logged \<circ> trace_of)
     (run (scenario 2 2 (Some (PyFloat 1))) (Some 2) None (fresh_world real) []) = Some []"
proof -
  let ?cs = "scenario 2 2 (Some (PyFloat 1))"
  let ?w = "fresh_world real"
  let ?ts0 = "\<lparr>step_type = FIRST, reward = None, discount = None, observation = 0::nat\<rparr>"
  let ?ts1 = "\<lparr>step_type = MID, reward = Some (PyFloat 1), discount = Some (PyFloat 1),
               observation = 1::nat\<rparr>"
  have h: "env_reset ?cs (env_state ?w) = Inr (?ts0, 0) \<and> \<not> last_ts ?ts0 \<and>
    actor_observe_first ?cs ?ts0 (actor_state ?w) = Inr 0 \<and>
    actor_select_action ?cs (observation ?ts0) 0 = Inr (0, 1) \<and>
    env_step ?cs 0 0 = Inr (?ts1, 1) \<and> \<not> last_ts ?ts1 \<and>
    actor_observe ?cs 0 ?ts1 1 = Inr 1 \<and>
    actor_update ?cs 1 = Inr 1 \<and>
    reward ?ts1 = Some (PyFloat 1) \<and>
    actor_select_action ?cs (observation ?ts1) 1 = Inl (Failure ''select_action'')"
    by (simp add: scen_defs last_ts_def)
  note inst = failure_ends_run_before_logging[of ?cs "Some 2" None ?w "[]" ?ts0 0 0 0 1 ?ts1 1 1 1
        "PyFloat 1" "Failure ''select_action''"]
  from inst[THEN conjunct2, rule_format, OF h]
  have r: "run ?cs (Some 2) None ?w [] =
      Some (Inl (Failure ''select_action'',
                 [] @ [(Env_reset, Inr (Ret_timestep ?ts0)),
                       (Actor_observe_first ?ts0, Inr Ret_none)] @
                      step_events ?ts0 [(0, ?ts1)] @
                      [(Actor_select_action (observation ?ts1), Inl (Failure ''select_action''))])) \<and>
         (Some (2::int) = None \<or> (None::int option) = None)"
    by simp
  from inst[THEN conjunct1, rule_format, OF r] r
  show ?thesis
    by simp
qed

text \<open>
  When the episodes have one step, the second \<^verbatim>\<open>select_action\<close> call belongs to the
  second episode, and the logger has the record of the first.
\<close>

theorem second_select_action_failure_after_one_record:
  "map_option result_of (run (scenario 2 1 (Some (PyFloat 1))) (Some 2) None (fresh_world real) [])
     = Some (Inl (Failure ''select_action'')) \<and>
   map_option (logged \<circ> trace_of)
     (run (scenario 2 1 (Some (PyFloat 1))) (Some 2) None (fresh_world real) [])
     = Some [[(''episode_length'', PyInt 1), (''episode_return'', PyFloat 1),
              (''steps_per_second'', PyFloat 1), (''episodes'', PyInt 1), (''steps'', PyInt 1)]]"
  by (simp add: eval_simps)

section \<open>Determinism\<close>



section \<open>An episode without steps\<close>




end
